theory Spec2Isabelle
  imports Complex_Main
begin

section \<open>Python values as they come out of \<^verbatim>\<open>json.loads\<close>\<close>

text \<open>
  The script works on what \<^verbatim>\<open>json.loads\<close> returns: \<^verbatim>\<open>None\<close>, booleans, integers,
  floats, strings, lists and dictionaries with string keys. A dictionary is an association
  list in insertion order; \<^verbatim>\<open>json.loads\<close> keeps one entry for each key. A float is
  carried as a rational (or one of the three special values the JSON decoder accepts);
  the script never computes with one, it only tests it for truth.
\<close>

datatype pyfloat = Finite rat | PosInf | NegInf | NaN

datatype json =
    JNull
  | JBool bool
  | JInt int
  | JFloat pyfloat
  | JStr string
  | JArr "json list"
  | JObj "(string \<times> json) list"

text \<open>The exceptions the script can meet and does not catch.\<close>

datatype py_error =
    AttributeError | TypeError | ValueError | KeyError | OSError | UnicodeDecodeError
  | TimeoutError

definition err_bind :: "'e + 'a \<Rightarrow> ('a \<Rightarrow> 'e + 'b) \<Rightarrow> 'e + 'b" where
  "err_bind m f = (case m of Inl e \<Rightarrow> Inl e | Inr x \<Rightarrow> f x)"

text \<open>A comprehension whose body may raise: the first exception, left to right, wins.\<close>

fun map_err :: "('a \<Rightarrow> 'e + 'b) \<Rightarrow> 'a list \<Rightarrow> 'e + 'b list" where
  "map_err f [] = Inr []"
| "map_err f (x # xs) =
     err_bind (f x) (\<lambda>y. err_bind (map_err f xs) (\<lambda>ys. Inr (y # ys)))"

text \<open>Python's truth value of an object (\<^verbatim>\<open>if x\<close>, \<^verbatim>\<open>not x\<close>).\<close>

fun truthy :: "json \<Rightarrow> bool" where
  "truthy JNull = False"
| "truthy (JBool b) = b"
| "truthy (JInt n) = (n \<noteq> 0)"
| "truthy (JFloat x) = (x \<noteq> Finite 0)"
| "truthy (JStr s) = (s \<noteq> [])"
| "truthy (JArr xs) = (xs \<noteq> [])"
| "truthy (JObj kvs) = (kvs \<noteq> [])"

text \<open>\<^verbatim>\<open>d.get(key, default)\<close> on a dictionary.\<close>

definition py_get :: "(string \<times> json) list \<Rightarrow> string \<Rightarrow> json \<Rightarrow> json" where
  "py_get kvs k d = (case map_of kvs k of None \<Rightarrow> d | Some v \<Rightarrow> v)"

text \<open>
  Iterating over an object (\<^verbatim>\<open>for v in x\<close>, \<^verbatim>\<open>list.extend(x)\<close>): a list gives its
  elements, a string its characters, a dictionary its keys; anything else raises
  \<^verbatim>\<open>TypeError\<close>. \<^verbatim>\<open>len\<close> of the three iterable kinds is the number of items.
\<close>

fun py_iter :: "json \<Rightarrow> py_error + json list" where
  "py_iter (JArr xs) = Inr xs"
| "py_iter (JStr s) = Inr (map (\<lambda>c. JStr [c]) s)"
| "py_iter (JObj kvs) = Inr (map (\<lambda>kv. JStr (fst kv)) kvs)"
| "py_iter _ = Inl TypeError"

text \<open>
  \<^verbatim>\<open>s.split(sep)\<close>: the pieces between the occurrences of \<open>sep\<close>, found from the left
  and not overlapping. \<open>cur\<close> is the piece being read. An empty separator raises
  \<^verbatim>\<open>ValueError\<close>.
\<close>

function split_from :: "char \<Rightarrow> string \<Rightarrow> string \<Rightarrow> string \<Rightarrow> string list" where
  "split_from s ss cur [] = [cur]"
| "split_from s ss cur (c # cs) =
     (if take (Suc (length ss)) (c # cs) = s # ss
      then cur # split_from s ss [] (drop (length ss) cs)
      else split_from s ss (cur @ [c]) cs)"
  by pat_completeness auto
termination
  by (relation "measure (\<lambda>(s, ss, cur, rest). length rest)") auto

fun py_split :: "string \<Rightarrow> string \<Rightarrow> py_error + string list" where
  "py_split str [] = Inl ValueError"
| "py_split str (s # ss) = Inr (split_from s ss [] str)"

section \<open>The Projector\<close>

text \<open>
  \<^verbatim>\<open>extract_product_info\<close> (lines 85 to 117). \<^verbatim>\<open>product.get\<close> needs a dictionary; the
  entries of the result are evaluated in the order they are written, so the tags are
  split before the variants are walked, and the variants before the images. The three
  computed entries have names here: \<open>split_tags\<close> is the conditional expression of line 96,
  \<open>variant_info\<close> the body of the comprehension of lines 101 to 114, and \<open>image_src\<close> the
  body of the comprehension of line 115. A value with no \<^verbatim>\<open>get\<close> or no \<^verbatim>\<open>split\<close> method
  raises \<^verbatim>\<open>AttributeError\<close>.
\<close>

definition variant_info :: "json \<Rightarrow> py_error + json" where
  "variant_info v =
     (case v of
        JObj kvs \<Rightarrow>
          Inr (JObj
            [(''id'', py_get kvs ''id'' JNull),
             (''title'', py_get kvs ''title'' JNull),
             (''price'', py_get kvs ''price'' JNull),
             (''compare_at_price'', py_get kvs ''compare_at_price'' JNull),
             (''sku'', py_get kvs ''sku'' JNull),
             (''available'', py_get kvs ''available'' JNull),
             (''inventory_quantity'', py_get kvs ''inventory_quantity'' JNull),
             (''weight'', py_get kvs ''weight'' JNull),
             (''weight_unit'', py_get kvs ''weight_unit'' JNull)])
      | _ \<Rightarrow> Inl AttributeError)"

definition image_src :: "json \<Rightarrow> py_error + json" where
  "image_src img =
     (case img of JObj kvs \<Rightarrow> Inr (py_get kvs ''src'' JNull) | _ \<Rightarrow> Inl AttributeError)"

definition split_tags :: "(string \<times> json) list \<Rightarrow> py_error + json" where
  "split_tags product =
     (if truthy (py_get product ''tags'' JNull)
      then (case py_get product ''tags'' (JStr '''') of
              JStr s \<Rightarrow> err_bind (py_split s '', '') (\<lambda>parts. Inr (JArr (map JStr parts)))
            | _ \<Rightarrow> Inl AttributeError)
      else Inr (JArr []))"

definition extract_product_info :: "json \<Rightarrow> py_error + json" where
  "extract_product_info p =
     (case p of
        JObj product \<Rightarrow>
          (let variants = py_get product ''variants'' (JArr []);
               images = py_get product ''images'' (JArr [])
           in err_bind (split_tags product) (\<lambda>tags.
              err_bind (err_bind (py_iter variants) (map_err variant_info)) (\<lambda>vs.
              err_bind (err_bind (py_iter images) (map_err image_src)) (\<lambda>srcs.
              Inr (JObj
                [(''id'', py_get product ''id'' JNull),
                 (''title'', py_get product ''title'' JNull),
                 (''handle'', py_get product ''handle'' JNull),
                 (''vendor'', py_get product ''vendor'' JNull),
                 (''product_type'', py_get product ''product_type'' JNull),
                 (''tags'', tags),
                 (''description'', py_get product ''body_html'' (JStr '''')),
                 (''created_at'', py_get product ''created_at'' JNull),
                 (''updated_at'', py_get product ''updated_at'' JNull),
                 (''published_at'', py_get product ''published_at'' JNull),
                 (''variants'', JArr vs),
                 (''images'', JArr srcs),
                 (''options'', py_get product ''options'' (JArr []))])))))
      | _ \<Rightarrow> Inl AttributeError)"

section \<open>The Fetcher\<close>

text \<open>
  The store is a function from the number of requests already made and the requested URL
  to what the body of the \<^verbatim>\<open>try\<close> block meets: one of the three exceptions the loop
  catches, an exception of any other class (raised by \<^verbatim>\<open>urlopen\<close>, \<^verbatim>\<open>read\<close> or
  \<^verbatim>\<open>decode\<close>: \<^verbatim>\<open>UnicodeDecodeError\<close> for a body that is not UTF-8, \<^verbatim>\<open>TimeoutError\<close> for
  a body that stops arriving), or the value \<^verbatim>\<open>json.loads\<close> returns. The requests sent
  and the calls of \<^verbatim>\<open>time.sleep\<close> are recorded in a trace; the progress output is not
  modelled.
\<close>

datatype response =
    HTTPError nat | URLError | JSONDecodeError | OtherException py_error | Body json

datatype event = Request string | Sleep rat

type_synonym server = "nat \<Rightarrow> string \<Rightarrow> response"

text \<open>\<^verbatim>\<open>str(n)\<close> of a natural number, as the f-string prints the page and the limit.\<close>

fun str_nat :: "nat \<Rightarrow> string" where
  "str_nat n =
     (if n < 10 then [char_of (48 + n)] else str_nat (n div 10) @ [char_of (48 + n mod 10)])"

declare str_nat.simps [simp del]

definition limit :: nat where
  "limit = 250"

definition has_scheme :: "string \<Rightarrow> bool" where
  "has_scheme s = (take 7 s = ''http://'' \<or> take 8 s = ''https://'')"

definition rstrip_slash :: "string \<Rightarrow> string" where
  "rstrip_slash s = rev (dropWhile (\<lambda>c. c = CHR ''/'') (rev s))"

definition normalize_url :: "string \<Rightarrow> string" where
  "normalize_url store_url =
     rstrip_slash (if \<not> has_scheme store_url then ''https://'' @ store_url else store_url)"

definition page_url :: "string \<Rightarrow> nat \<Rightarrow> string" where
  "page_url store_url page =
     store_url @ ''/products.json?limit='' @ str_nat limit @ ''&page='' @ str_nat page"

text \<open>
  The \<^verbatim>\<open>while True\<close> loop (lines 36 to 80) with its state: the request counter of the
  store, \<open>page\<close>, \<open>all_products\<close> and the trace. The loop may run forever, so it returns
  an option: \<open>None\<close> is a run that never leaves the loop. An exception no handler catches
  leaves the function (\<open>Inl\<close>); \<^verbatim>\<open>time.sleep\<close> raises \<^verbatim>\<open>ValueError\<close> on a negative delay.
\<close>

partial_function (option) fetch_loop ::
  "server \<Rightarrow> string \<Rightarrow> rat \<Rightarrow> nat \<Rightarrow> nat \<Rightarrow> json list \<Rightarrow> event list
   \<Rightarrow> (event list \<times> (py_error + json list)) option" where
  "fetch_loop server store_url delay clock page all_products trace =
     (let url = page_url store_url page;
          trace1 = trace @ [Request url]
      in case server clock url of
           Body data \<Rightarrow>
             (case data of
                JObj d \<Rightarrow>
                  (let products = py_get d ''products'' (JArr []) in
                   if \<not> truthy products then Some (trace1, Inr all_products)
                   else (case py_iter products of
                           Inl e \<Rightarrow> Some (trace1, Inl e)
                         | Inr items \<Rightarrow>
                             if length items < limit
                             then Some (trace1, Inr (all_products @ items))
                             else if delay < 0 then Some (trace1, Inl ValueError)
                             else fetch_loop server store_url delay (Suc clock) (Suc page)
                                    (all_products @ items) (trace1 @ [Sleep delay])))
              | _ \<Rightarrow> Some (trace1, Inl AttributeError))
         | HTTPError code \<Rightarrow>
             if code = 404 then Some (trace1, Inr all_products)
             else if code = 429
             then fetch_loop server store_url delay (Suc clock) page all_products
                    (trace1 @ [Sleep 10])
             else Some (trace1, Inr all_products)
         | URLError \<Rightarrow> Some (trace1, Inr all_products)
         | JSONDecodeError \<Rightarrow> Some (trace1, Inr all_products)
         | OtherException e \<Rightarrow> Some (trace1, Inl e))"

definition scrape_shopify_products ::
  "server \<Rightarrow> string \<Rightarrow> rat \<Rightarrow> (event list \<times> (py_error + json list)) option" where
  "scrape_shopify_products server store_url delay =
     fetch_loop server (normalize_url store_url) delay 0 1 [] []"

section \<open>The command line\<close>

text \<open>
  \<^verbatim>\<open>main\<close> (lines 120 to 153). \<open>argv\<close> is \<^verbatim>\<open>sys.argv\<close>, the script name first.
  \<open>writable f\<close> says that opening \<open>f\<close> for writing and dumping the JSON succeed; when they
  do not, \<^verbatim>\<open>OSError\<close> is raised and nothing catches it. An exception that leaves \<^verbatim>\<open>main\<close>
  ends the process with status 1, as \<^verbatim>\<open>sys.exit(1)\<close> does; falling off the end of the
  script ends it with status 0. The result is the exit status and the file written, if
  any; \<open>None\<close> is a process that never exits.

  The summary builds two sets. A set hashes its members, and lists and dictionaries are
  not hashable; the sizes of the sets are only printed and are not modelled.
\<close>

fun hashable :: "json \<Rightarrow> bool" where
  "hashable (JArr xs) = False"
| "hashable (JObj kvs) = False"
| "hashable _ = True"

fun py_index :: "json \<Rightarrow> string \<Rightarrow> py_error + json" where
  "py_index (JObj kvs) k = (case map_of kvs k of None \<Rightarrow> Inl KeyError | Some v \<Rightarrow> Inr v)"
| "py_index _ k = Inl TypeError"

fun truthy_values :: "string \<Rightarrow> json list \<Rightarrow> py_error + json list" where
  "truthy_values k [] = Inr []"
| "truthy_values k (p # ps) =
     err_bind (py_index p k) (\<lambda>v.
       if truthy v
       then (if hashable v then err_bind (truthy_values k ps) (\<lambda>vs. Inr (v # vs))
             else Inl TypeError)
       else truthy_values k ps)"

definition main ::
  "server \<Rightarrow> (string \<Rightarrow> bool) \<Rightarrow> string list \<Rightarrow> (nat \<times> (string \<times> json list) option) option" where
  "main server writable argv =
     (if length argv < 2 then Some (1, None)
      else
        let store_url = argv ! 1;
            output_file = (if length argv > 2 then argv ! 2 else ''products.json'')
        in case scrape_shopify_products server store_url 1 of
             None \<Rightarrow> None
           | Some (trace, Inl e) \<Rightarrow> Some (1, None)
           | Some (trace, Inr products) \<Rightarrow>
               if products = [] then Some (1, None)
               else (case map_err extract_product_info products of
                       Inl e \<Rightarrow> Some (1, None)
                     | Inr cleaned_products \<Rightarrow>
                         if \<not> writable output_file then Some (1, None)
                         else (case err_bind (truthy_values ''vendor'' cleaned_products)
                                      (\<lambda>vendors.
                                         err_bind (truthy_values ''product_type'' cleaned_products)
                                           (\<lambda>types. Inr (vendors, types))) of
                                 Inl e \<Rightarrow> Some (1, Some (output_file, cleaned_products))
                               | Inr summary \<Rightarrow> Some (0, Some (output_file, cleaned_products)))))"

section \<open>Vocabulary of the properties\<close>

text \<open>
  The Raw shape of the data model, as far as the Projector depends on it: a product is a
  key-value record whose \<open>tags\<close>, when present, is a string (or a false value such as
  \<^verbatim>\<open>null\<close>), and whose \<open>variants\<close> and \<open>images\<close>, when present, are sequences of
  key-value records. Every field may be absent, and the other fields may hold anything.
\<close>

fun is_str :: "json \<Rightarrow> bool" where
  "is_str (JStr s) = True"
| "is_str _ = False"

fun is_obj :: "json \<Rightarrow> bool" where
  "is_obj (JObj kvs) = True"
| "is_obj _ = False"

fun is_obj_list :: "json \<Rightarrow> bool" where
  "is_obj_list (JArr xs) = list_all is_obj xs"
| "is_obj_list _ = False"

definition tags_ok :: "json \<Rightarrow> bool" where
  "tags_ok t = (is_str t \<or> \<not> truthy t)"

definition absent_or :: "(json \<Rightarrow> bool) \<Rightarrow> (string \<times> json) list \<Rightarrow> string \<Rightarrow> bool" where
  "absent_or P kvs k = (case map_of kvs k of None \<Rightarrow> True | Some v \<Rightarrow> P v)"

definition raw_product :: "json \<Rightarrow> bool" where
  "raw_product p =
     (case p of
        JObj kvs \<Rightarrow>
          absent_or tags_ok kvs ''tags'' \<and> absent_or is_obj_list kvs ''variants''
          \<and> absent_or is_obj_list kvs ''images''
      | _ \<Rightarrow> False)"

fun dict_of :: "json \<Rightarrow> (string \<times> json) list" where
  "dict_of (JObj kvs) = kvs"
| "dict_of _ = []"

fun items_of :: "json \<Rightarrow> json list" where
  "items_of (JArr xs) = xs"
| "items_of _ = []"

fun keys :: "json \<Rightarrow> string list option" where
  "keys (JObj kvs) = Some (map fst kvs)"
| "keys _ = None"

text \<open>Reading a field of a record, and of the record a call returned.\<close>

definition lookup :: "json \<Rightarrow> string \<Rightarrow> json option" where
  "lookup j k = map_of (dict_of j) k"

definition result_field :: "py_error + json \<Rightarrow> string \<Rightarrow> json option" where
  "result_field r k = (case r of Inl e \<Rightarrow> None | Inr out \<Rightarrow> lookup out k)"

definition product_keys :: "string list" where
  "product_keys = [''id'', ''title'', ''handle'', ''vendor'', ''product_type'', ''tags'',
     ''description'', ''created_at'', ''updated_at'', ''published_at'', ''variants'',
     ''images'', ''options'']"

definition variant_keys :: "string list" where
  "variant_keys = [''id'', ''title'', ''price'', ''compare_at_price'', ''sku'', ''available'',
     ''inventory_quantity'', ''weight'', ''weight_unit'']"

definition passthrough_keys :: "string list" where
  "passthrough_keys = [''id'', ''title'', ''handle'', ''vendor'', ''product_type'',
     ''created_at'', ''updated_at'', ''published_at'']"

definition pick :: "string list \<Rightarrow> json \<Rightarrow> json" where
  "pick ks v = JObj (map (\<lambda>k. (k, py_get (dict_of v) k JNull)) ks)"

definition tags_of :: "(string \<times> json) list \<Rightarrow> json" where
  "tags_of kvs =
     (case map_of kvs ''tags'' of
        Some (JStr s) \<Rightarrow>
          if s = [] then JArr [] else JArr (map JStr (split_from (CHR '','') '' '' [] s))
      | _ \<Rightarrow> JArr [])"

text \<open>\<^verbatim>\<open>sep.join(parts)\<close>, the inverse of splitting.\<close>

fun py_join :: "string \<Rightarrow> string list \<Rightarrow> string" where
  "py_join sep [] = []"
| "py_join sep [x] = x"
| "py_join sep (x # y # ys) = x @ sep @ py_join sep (y # ys)"

text \<open>A trimmed string is one that \<^verbatim>\<open>strip()\<close> leaves alone (ASCII white space).\<close>

definition is_space :: "char \<Rightarrow> bool" where
  "is_space c = (c \<in> set [CHR '' '', CHR 0x09, CHR 0x0A, CHR 0x0B, CHR 0x0C, CHR 0x0D])"

definition py_strip :: "string \<Rightarrow> string" where
  "py_strip s = dropWhile is_space (rev (dropWhile is_space (rev s)))"

definition trimmed :: "string \<Rightarrow> bool" where
  "trimmed s = (py_strip s = s)"

text \<open>
  What a store answers: \<open>page_of r\<close> is the list of products of a response whose body is
  a JSON object with a \<open>products\<close> array; a terminal error is one of the errors the loop
  catches and does not retry.
\<close>

fun page_of :: "response \<Rightarrow> json list option" where
  "page_of (Body (JObj d)) =
     (case map_of d ''products'' of Some (JArr ps) \<Rightarrow> Some ps | _ \<Rightarrow> None)"
| "page_of _ = None"


fun requests :: "event list \<Rightarrow> string list" where
  "requests [] = []"
| "requests (Request u # es) = u # requests es"
| "requests (Sleep d # es) = requests es"

text \<open>The trace of \<open>n\<close> full pages starting at \<open>page\<close>: a request and a sleep for each.\<close>

definition full_trace :: "string \<Rightarrow> rat \<Rightarrow> nat \<Rightarrow> nat \<Rightarrow> event list" where
  "full_trace base delay page n =
     concat (map (\<lambda>i. [Request (page_url base (page + i)), Sleep delay]) [0..<n])"

text \<open>
  For the summary: the \<open>vendor\<close> and \<open>product_type\<close> of a product, when present and
  true, are scalars (not lists or dictionaries).
\<close>

definition scalar_or_falsy :: "json \<Rightarrow> bool" where
  "scalar_or_falsy v = (truthy v \<longrightarrow> hashable v)"

definition summarisable :: "json \<Rightarrow> bool" where
  "summarisable p =
     (absent_or scalar_or_falsy (dict_of p) ''vendor''
      \<and> absent_or scalar_or_falsy (dict_of p) ''product_type'')"

text \<open>A product the Projector returns on, whatever its shape.\<close>

definition projects :: "json \<Rightarrow> bool" where
  "projects p = (\<not> isl (extract_product_info p))"

definition exit_status :: "(nat \<times> 'a) option \<Rightarrow> nat option" where
  "exit_status r = map_option fst r"

definition output_file_of :: "string list \<Rightarrow> string" where
  "output_file_of argv = (if length argv > 2 then argv ! 2 else ''products.json'')"

text \<open>What the Projector returns on a Raw-shaped record, written out.\<close>

definition projected :: "(string \<times> json) list \<Rightarrow> (string \<times> json) list" where
  "projected kvs =
      [(''id'', py_get kvs ''id'' JNull),
       (''title'', py_get kvs ''title'' JNull),
       (''handle'', py_get kvs ''handle'' JNull),
       (''vendor'', py_get kvs ''vendor'' JNull),
       (''product_type'', py_get kvs ''product_type'' JNull),
       (''tags'', tags_of kvs),
       (''description'', py_get kvs ''body_html'' (JStr '''')),
       (''created_at'', py_get kvs ''created_at'' JNull),
       (''updated_at'', py_get kvs ''updated_at'' JNull),
       (''published_at'', py_get kvs ''published_at'' JNull),
       (''variants'', JArr (map (pick variant_keys) (items_of (py_get kvs ''variants'' (JArr []))))),
       (''images'', JArr (map (\<lambda>img. py_get (dict_of img) ''src'' JNull)
                            (items_of (py_get kvs ''images'' (JArr []))))),
       (''options'', py_get kvs ''options'' (JArr []))]"

section \<open>Example stores\<close>

text \<open>
  Stores for the scenarios of the specification. They answer by the number of the request
  alone: a product page of one mug; a rate limit on the first request and the mug after
  it; a full page of 250 followed by a page of 10; a full page followed by a server error;
  a full page followed by a body that is not UTF-8; a product whose tags are a list.
\<close>

definition mug :: json where
  "mug = JObj [(''title'', JStr ''Mug''), (''vendor'', JStr ''Acme'')]"

definition products_body :: "json list \<Rightarrow> response" where
  "products_body ps = Body (JObj [(''products'', JArr ps)])"

definition mug_store :: server where
  "mug_store clock url = products_body [mug]"

definition limited_once_store :: server where
  "limited_once_store clock url = (if clock = 0 then HTTPError 429 else products_body [mug])"

definition two_page_store :: server where
  "two_page_store clock url =
     (if clock = 0 then products_body (replicate 250 mug) else products_body (replicate 10 mug))"



definition list_tags_store :: server where
  "list_tags_store clock url = products_body [JObj [(''tags'', JArr [JStr ''a''])]]"

definition nothing_writable :: "string \<Rightarrow> bool" where
  "nothing_writable f = False"

definition all_writable :: "string \<Rightarrow> bool" where
  "all_writable f = True"

section \<open>Facts about the helpers\<close>

lemma err_bind_Inr [simp]: "err_bind (Inr x) f = f x"
  by (simp add: err_bind_def)

lemma err_bind_Inl [simp]: "err_bind (Inl e) f = Inl e"
  by (simp add: err_bind_def)

lemma err_bind_eq_Inr: "err_bind m f = Inr y \<longleftrightarrow> (\<exists>x. m = Inr x \<and> f x = Inr y)"
  by (cases m) simp_all

lemma map_err_Inr: "(\<And>x. x \<in> set xs \<Longrightarrow> f x = Inr (g x)) \<Longrightarrow> map_err f xs = Inr (map g xs)"
  by (induction xs) simp_all

lemma map_of_pick: "k \<in> set ks \<Longrightarrow> map_of (map (\<lambda>k. (k, f k)) ks) k = Some (f k)"
  by (induction ks) auto

lemma lookup_pick: "k \<in> set ks \<Longrightarrow> lookup (pick ks v) k = Some (py_get (dict_of v) k JNull)"
  by (simp add: lookup_def pick_def map_of_pick)

lemma keys_pick: "keys (pick ks v) = Some ks"
  by (simp add: pick_def comp_def)

lemma variant_info_obj: "is_obj v \<Longrightarrow> variant_info v = Inr (pick variant_keys v)"
  by (cases v) (simp_all add: variant_info_def pick_def variant_keys_def)

lemma variant_info_Inr: "variant_info v = Inr w \<Longrightarrow> w = pick variant_keys v"
  by (cases v) (auto simp: variant_info_def pick_def variant_keys_def)

lemma image_src_obj: "is_obj img \<Longrightarrow> image_src img = Inr (py_get (dict_of img) ''src'' JNull)"
  by (cases img) (simp_all add: image_src_def)

lemma map_err_variant_info_Inr:
  "map_err variant_info xs = Inr ws \<Longrightarrow> ws = map (pick variant_keys) xs"
proof (induction xs arbitrary: ws)
  case Nil
  then show ?case by simp
next
  case (Cons x xs)
  from Cons.prems obtain w ws' where w: "variant_info x = Inr w"
    and ws': "map_err variant_info xs = Inr ws'" and ws: "ws = w # ws'"
    by (auto simp: err_bind_eq_Inr)
  from Cons.IH [OF ws'] variant_info_Inr [OF w] ws show ?case by simp
qed

subsection \<open>Splitting and joining\<close>

lemma split_from_nonempty: "split_from s ss cur str \<noteq> []"
  by (induction s ss cur str rule: split_from.induct) simp_all

lemma py_join_Cons: "ys \<noteq> [] \<Longrightarrow> py_join sep (x # ys) = x @ sep @ py_join sep ys"
  by (cases ys) simp_all

lemma join_split_from: "py_join (s # ss) (split_from s ss cur str) = cur @ str"
proof (induction s ss cur str rule: split_from.induct)
  case (1 s ss cur)
  then show ?case by simp
next
  case (2 s ss cur c cs)
  show ?case
  proof (cases "take (Suc (length ss)) (c # cs) = s # ss")
    case True
    have "c # cs = take (Suc (length ss)) (c # cs) @ drop (Suc (length ss)) (c # cs)"
      by (simp only: append_take_drop_id)
    with True have str: "(s # ss) @ drop (length ss) cs = c # cs" by simp
    from True have unfold: "split_from s ss cur (c # cs)
        = cur # split_from s ss [] (drop (length ss) cs)" by simp
    note IH = 2(1) [OF True]
    have "py_join (s # ss) (split_from s ss cur (c # cs))
        = cur @ (s # ss) @ [] @ drop (length ss) cs"
      by (simp only: unfold py_join_Cons [OF split_from_nonempty] IH)
    also have "\<dots> = cur @ c # cs"
      by (simp only: append_Nil str)
    finally show ?thesis .
  next
    case False
    then have unfold: "split_from s ss cur (c # cs) = split_from s ss (cur @ [c]) cs"
      by (simp only: split_from.simps if_False)
    from 2(2) [OF False] show ?thesis
      by (simp only: unfold append_assoc append_Cons append_Nil)
  qed
qed

subsection \<open>The Projector on a Raw-shaped product\<close>

lemma raw_productE:
  assumes "raw_product p"
  obtains kvs where "p = JObj kvs" and "absent_or tags_ok kvs ''tags''"
    and "absent_or is_obj_list kvs ''variants''" and "absent_or is_obj_list kvs ''images''"
  using assms by (cases p) (simp_all add: raw_product_def)

lemma variants_ok:
  assumes "absent_or is_obj_list kvs k"
  shows "err_bind (py_iter (py_get kvs k (JArr []))) (map_err variant_info)
         = Inr (map (pick variant_keys) (items_of (py_get kvs k (JArr []))))"
proof (cases "map_of kvs k")
  case None
  then show ?thesis by (simp add: py_get_def)
next
  case (Some v)
  with assms have "is_obj_list v" by (simp add: absent_or_def)
  then obtain xs where v: "v = JArr xs" and xs: "list_all is_obj xs"
    by (cases v) simp_all
  from xs have "map_err variant_info xs = Inr (map (pick variant_keys) xs)"
    by (intro map_err_Inr variant_info_obj) (simp add: list_all_iff)
  with Some v show ?thesis by (simp add: py_get_def)
qed

lemma images_ok:
  assumes "absent_or is_obj_list kvs k"
  shows "err_bind (py_iter (py_get kvs k (JArr []))) (map_err image_src)
         = Inr (map (\<lambda>img. py_get (dict_of img) ''src'' JNull)
                  (items_of (py_get kvs k (JArr []))))"
proof (cases "map_of kvs k")
  case None
  then show ?thesis by (simp add: py_get_def)
next
  case (Some v)
  with assms have "is_obj_list v" by (simp add: absent_or_def)
  then obtain xs where v: "v = JArr xs" and xs: "list_all is_obj xs"
    by (cases v) simp_all
  from xs have "map_err image_src xs
      = Inr (map (\<lambda>img. py_get (dict_of img) ''src'' JNull) xs)"
    by (intro map_err_Inr image_src_obj) (simp add: list_all_iff)
  with Some v show ?thesis by (simp add: py_get_def)
qed

lemma split_tags_ok:
  assumes "absent_or tags_ok kvs ''tags''"
  shows "split_tags kvs = Inr (tags_of kvs)"
proof (cases "map_of kvs ''tags''")
  case None
  then show ?thesis by (simp add: split_tags_def tags_of_def py_get_def)
next
  case (Some v)
  with assms have "is_str v \<or> \<not> truthy v" by (simp add: absent_or_def tags_ok_def)
  with Some show ?thesis
    by (cases v) (simp_all add: split_tags_def tags_of_def py_get_def)
qed

lemma extract_raw:
  assumes "raw_product (JObj kvs)"
  shows "extract_product_info (JObj kvs) = Inr (JObj (projected kvs))"
proof -
  from assms have t: "absent_or tags_ok kvs ''tags''"
    and v: "absent_or is_obj_list kvs ''variants''"
    and i: "absent_or is_obj_list kvs ''images''"
    by (simp_all add: raw_product_def)
  show ?thesis
    unfolding extract_product_info_def projected_def
    by (simp add: Let_def split_tags_ok [OF t] variants_ok [OF v] images_ok [OF i])
qed

lemma map_of_projected:
  "map_of (projected kvs) ''id'' = Some (py_get kvs ''id'' JNull)"
  "map_of (projected kvs) ''title'' = Some (py_get kvs ''title'' JNull)"
  "map_of (projected kvs) ''handle'' = Some (py_get kvs ''handle'' JNull)"
  "map_of (projected kvs) ''vendor'' = Some (py_get kvs ''vendor'' JNull)"
  "map_of (projected kvs) ''product_type'' = Some (py_get kvs ''product_type'' JNull)"
  "map_of (projected kvs) ''tags'' = Some (tags_of kvs)"
  "map_of (projected kvs) ''description'' = Some (py_get kvs ''body_html'' (JStr ''''))"
  "map_of (projected kvs) ''created_at'' = Some (py_get kvs ''created_at'' JNull)"
  "map_of (projected kvs) ''updated_at'' = Some (py_get kvs ''updated_at'' JNull)"
  "map_of (projected kvs) ''published_at'' = Some (py_get kvs ''published_at'' JNull)"
  "map_of (projected kvs) ''variants''
     = Some (JArr (map (pick variant_keys) (items_of (py_get kvs ''variants'' (JArr [])))))"
  "map_of (projected kvs) ''images''
     = Some (JArr (map (\<lambda>img. py_get (dict_of img) ''src'' JNull)
                     (items_of (py_get kvs ''images'' (JArr [])))))"
  "map_of (projected kvs) ''options'' = Some (py_get kvs ''options'' (JArr []))"
  "map_of (projected kvs) ''body_html'' = None"
  by (simp_all add: projected_def)

lemma keys_projected: "map fst (projected kvs) = product_keys"
  by (simp add: projected_def product_keys_def)

section \<open>Facts about the fetch loop\<close>

lemma page_ofE:
  assumes "page_of r = Some ps"
  obtains d where "r = Body (JObj d)" and "map_of d ''products'' = Some (JArr ps)"
proof (cases r)
  case (Body data)
  with assms show ?thesis
    by (cases data) (auto split: option.splits json.splits intro: that)
qed (use assms in simp_all)

lemma page_of_products_body [simp]: "page_of (products_body ps) = Some ps"
  by (simp add: products_body_def)

text \<open>One turn of the loop, for each thing the store can answer.\<close>

lemma fetch_loop_full_page:
  assumes "0 \<le> delay" and "page_of (server t (page_url base page)) = Some ps"
    and "length ps = 250"
  shows "fetch_loop server base delay t page acc trace =
         fetch_loop server base delay (Suc t) (Suc page) (acc @ ps)
           (trace @ [Request (page_url base page), Sleep delay])"
proof -
  from assms(2) obtain d where r: "server t (page_url base page) = Body (JObj d)"
    and d: "map_of d ''products'' = Some (JArr ps)" by (rule page_ofE)
  from assms(3) have ne: "ps \<noteq> []" by auto
  from assms(1) have nn: "\<not> delay < 0" by simp
  show ?thesis
    by (subst fetch_loop.simps) (simp add: r d ne nn py_get_def limit_def assms(3) Let_def)
qed

lemma fetch_loop_last_page:
  assumes "page_of (server t (page_url base page)) = Some ps" and "length ps < 250"
  shows "fetch_loop server base delay t page acc trace =
         Some (trace @ [Request (page_url base page)], Inr (acc @ ps))"
proof -
  from assms(1) obtain d where r: "server t (page_url base page) = Body (JObj d)"
    and d: "map_of d ''products'' = Some (JArr ps)" by (rule page_ofE)
  show ?thesis
    by (subst fetch_loop.simps) (simp add: r d py_get_def limit_def assms(2) Let_def)
qed

lemma fetch_loop_429:
  assumes "server t (page_url base page) = HTTPError 429"
  shows "fetch_loop server base delay t page acc trace =
         fetch_loop server base delay (Suc t) page acc
           (trace @ [Request (page_url base page), Sleep 10])"
  by (subst fetch_loop.simps) (simp add: assms Let_def)



text \<open>Several turns: \<open>n\<close> full pages in a row, and \<open>n\<close> rate limits in a row.\<close>

lemma fetch_loop_full_pages:
  assumes "0 \<le> delay"
    and "\<forall>i<n. page_of (server (t + i) (page_url base (page + i))) = Some (pages i)
              \<and> length (pages i) = 250"
  shows "fetch_loop server base delay t page acc trace =
         fetch_loop server base delay (t + n) (page + n) (acc @ concat (map pages [0..<n]))
           (trace @ full_trace base delay page n)"
  using assms(2)
proof (induction n)
  case 0
  then show ?case by (simp add: full_trace_def)
next
  case (Suc n)
  then have IH: "fetch_loop server base delay t page acc trace =
         fetch_loop server base delay (t + n) (page + n) (acc @ concat (map pages [0..<n]))
           (trace @ full_trace base delay page n)" by simp
  from Suc.prems have p: "page_of (server (t + n) (page_url base (page + n))) = Some (pages n)"
    and l: "length (pages n) = 250" by simp_all
  show ?case
    unfolding IH fetch_loop_full_page [where server = server, OF assms(1) p l]
    by (simp add: full_trace_def)
qed

lemma concat_replicate_snoc: "concat (replicate (Suc n) xs) = concat (replicate n xs) @ xs"
proof -
  have "replicate (Suc n) xs = replicate n xs @ [xs]"
    by (simp add: replicate_append_same)
  then show ?thesis
    by (simp only: concat_append concat.simps append_Nil2)
qed

lemma fetch_loop_retries:
  assumes "\<forall>i<n. server (t + i) (page_url base page) = HTTPError 429"
  shows "fetch_loop server base delay t page acc trace =
         fetch_loop server base delay (t + n) page acc
           (trace @ concat (replicate n [Request (page_url base page), Sleep 10]))"
  using assms
proof (induction n)
  case 0
  then show ?case by simp
next
  case (Suc n)
  then have IH: "fetch_loop server base delay t page acc trace =
         fetch_loop server base delay (t + n) page acc
           (trace @ concat (replicate n [Request (page_url base page), Sleep 10]))" by simp
  from Suc.prems have r: "server (t + n) (page_url base page) = HTTPError 429" by simp
  show ?case
    unfolding IH fetch_loop_429 [where server = server, OF r]
    by (simp only: concat_replicate_snoc add_Suc_right append_assoc)
qed

text \<open>A loop that returns has met, on its current page, something other than a rate limit.\<close>

lemma fetch_loop_Some_not_limited:
  assumes "fetch_loop srv b d t p a tr = Some y"
  shows "\<exists>t'. srv t' (page_url b p) \<noteq> HTTPError 429"
proof (rule fetch_loop.raw_induct
    [where P = "\<lambda>srv b d t p a tr y. \<exists>t'. srv t' (page_url b p) \<noteq> HTTPError 429", OF _ assms],
    goal_cases)
  case (1 f srv b d t p a tr y)
  show ?case
  proof (rule ccontr)
    assume "\<not> ?thesis"
    then have all: "\<And>t'. srv t' (page_url b p) = HTTPError 429" by simp
    with 1(2) have "f srv b d (Suc t) p a (tr @ [Request (page_url b p), Sleep 10]) = Some y"
      by (simp add: Let_def)
    then have "\<exists>t'. srv t' (page_url b p) \<noteq> HTTPError 429" by (rule 1(1))
    with all show False by simp
  qed
qed

lemma length_concat_full:
  "\<forall>i<n. length (pages i) = m \<Longrightarrow> length (concat (map pages [0..<n])) = m * n"
  by (induction n) simp_all

lemma requests_append: "requests (xs @ ys) = requests xs @ requests ys"
  by (induction xs rule: requests.induct) simp_all

lemma requests_full_trace:
  "requests (full_trace base delay page n) = map (\<lambda>i. page_url base (page + i)) [0..<n]"
  by (induction n) (simp_all add: full_trace_def requests_append)

lemma scrape_full_then:
  assumes "0 \<le> delay"
    and "\<forall>i<N. page_of (server i (page_url (normalize_url store_url) (Suc i))) = Some (pages i)
              \<and> length (pages i) = 250"
  shows "scrape_shopify_products server store_url delay =
         fetch_loop server (normalize_url store_url) delay N (Suc N)
           (concat (map pages [0..<N])) (full_trace (normalize_url store_url) delay 1 N)"
proof -
  from assms(2) have "\<forall>i<N. page_of (server (0 + i) (page_url (normalize_url store_url) (1 + i)))
      = Some (pages i) \<and> length (pages i) = 250" by simp
  from fetch_loop_full_pages [where server = server, OF assms(1) this, of "[]" "[]"]
  show ?thesis by (simp add: scrape_shopify_products_def)
qed

section \<open>Properties of the Projector\<close>

text \<open>
  C5. The Projector is total on Raw-shaped records: whichever fields are absent, it
  returns a record and raises nothing, and every absent field has its default in the
  result: \<open>None\<close> for the eight plain fields, the empty string for the description, the
  empty sequence for tags, variants, images and options. A variant lacking a subfield
  (such as \<open>sku\<close>) and an image lacking \<open>src\<close> project to \<open>None\<close> there.
\<close>

theorem extract_product_info_total:
  assumes "raw_product p"
  shows "\<exists>out. extract_product_info p = Inr (JObj out)
    \<and> (\<forall>k\<in>set passthrough_keys. lookup p k = None \<longrightarrow> map_of out k = Some JNull)
    \<and> (lookup p ''body_html'' = None \<longrightarrow> map_of out ''description'' = Some (JStr ''''))
    \<and> (lookup p ''tags'' = None \<longrightarrow> map_of out ''tags'' = Some (JArr []))
    \<and> (lookup p ''variants'' = None \<longrightarrow> map_of out ''variants'' = Some (JArr []))
    \<and> (lookup p ''images'' = None \<longrightarrow> map_of out ''images'' = Some (JArr []))
    \<and> (lookup p ''options'' = None \<longrightarrow> map_of out ''options'' = Some (JArr []))
    \<and> (\<forall>vs. lookup p ''variants'' = Some (JArr vs) \<longrightarrow>
          (\<exists>ws. map_of out ''variants'' = Some (JArr ws) \<and> length ws = length vs
            \<and> (\<forall>i<length vs. \<forall>k\<in>set variant_keys.
                  lookup (vs ! i) k = None \<longrightarrow> lookup (ws ! i) k = Some JNull)))
    \<and> (\<forall>imgs. lookup p ''images'' = Some (JArr imgs) \<longrightarrow>
          (\<exists>srcs. map_of out ''images'' = Some (JArr srcs) \<and> length srcs = length imgs
            \<and> (\<forall>i<length imgs. lookup (imgs ! i) ''src'' = None \<longrightarrow> srcs ! i = JNull)))"
proof -
  from assms obtain kvs where p: "p = JObj kvs" by (rule raw_productE)
  with assms have out: "extract_product_info p = Inr (JObj (projected kvs))"
    by (simp add: extract_raw)
  have plain: "\<forall>k\<in>set passthrough_keys. lookup p k = None
      \<longrightarrow> map_of (projected kvs) k = Some JNull"
    by (simp add: passthrough_keys_def p lookup_def map_of_projected py_get_def)
  have descr: "lookup p ''body_html'' = None
      \<longrightarrow> map_of (projected kvs) ''description'' = Some (JStr '''')"
    by (simp add: p lookup_def map_of_projected py_get_def)
  have tags: "lookup p ''tags'' = None \<longrightarrow> map_of (projected kvs) ''tags'' = Some (JArr [])"
    by (simp add: p lookup_def map_of_projected tags_of_def)
  have seqs: "lookup p ''variants'' = None \<longrightarrow> map_of (projected kvs) ''variants'' = Some (JArr [])"
    "lookup p ''images'' = None \<longrightarrow> map_of (projected kvs) ''images'' = Some (JArr [])"
    "lookup p ''options'' = None \<longrightarrow> map_of (projected kvs) ''options'' = Some (JArr [])"
    by (simp_all add: p lookup_def map_of_projected py_get_def)
  have variants: "\<exists>ws. map_of (projected kvs) ''variants'' = Some (JArr ws)
        \<and> length ws = length vs
        \<and> (\<forall>i<length vs. \<forall>k\<in>set variant_keys.
              lookup (vs ! i) k = None \<longrightarrow> lookup (ws ! i) k = Some JNull)"
    if "lookup p ''variants'' = Some (JArr vs)" for vs
  proof (intro exI conjI allI impI ballI)
    from that show "map_of (projected kvs) ''variants'' = Some (JArr (map (pick variant_keys) vs))"
      by (simp add: p lookup_def map_of_projected py_get_def)
    show "length (map (pick variant_keys) vs) = length vs" by simp
  next
    fix i k
    assume "i < length vs" and "k \<in> set variant_keys" and "lookup (vs ! i) k = None"
    then show "lookup (map (pick variant_keys) vs ! i) k = Some JNull"
      by (simp add: lookup_pick py_get_def) (simp add: lookup_def)
  qed
  have images: "\<exists>srcs. map_of (projected kvs) ''images'' = Some (JArr srcs)
        \<and> length srcs = length imgs
        \<and> (\<forall>i<length imgs. lookup (imgs ! i) ''src'' = None \<longrightarrow> srcs ! i = JNull)"
    if "lookup p ''images'' = Some (JArr imgs)" for imgs
  proof (intro exI conjI allI impI)
    from that show "map_of (projected kvs) ''images''
        = Some (JArr (map (\<lambda>img. py_get (dict_of img) ''src'' JNull) imgs))"
      by (simp add: p lookup_def map_of_projected py_get_def)
    show "length (map (\<lambda>img. py_get (dict_of img) ''src'' JNull) imgs) = length imgs" by simp
  next
    fix i
    assume "i < length imgs" and "lookup (imgs ! i) ''src'' = None"
    then show "map (\<lambda>img. py_get (dict_of img) ''src'' JNull) imgs ! i = JNull"
      by (simp add: py_get_def lookup_def)
  qed
  have variants': "\<forall>vs. lookup p ''variants'' = Some (JArr vs) \<longrightarrow>
      (\<exists>ws. map_of (projected kvs) ''variants'' = Some (JArr ws) \<and> length ws = length vs
        \<and> (\<forall>i<length vs. \<forall>k\<in>set variant_keys.
              lookup (vs ! i) k = None \<longrightarrow> lookup (ws ! i) k = Some JNull))"
    by (intro allI impI) (rule variants)
  have images': "\<forall>imgs. lookup p ''images'' = Some (JArr imgs) \<longrightarrow>
      (\<exists>srcs. map_of (projected kvs) ''images'' = Some (JArr srcs) \<and> length srcs = length imgs
        \<and> (\<forall>i<length imgs. lookup (imgs ! i) ''src'' = None \<longrightarrow> srcs ! i = JNull))"
    by (intro allI impI) (rule images)
  show ?thesis
    by (rule exI [of _ "projected kvs"]) (intro conjI out plain descr tags seqs variants' images')
qed

theorem extract_product_info_total_witness:
  "raw_product (JObj [(''variants'', JArr [JObj [(''id'', JInt 7)]])])
   \<and> extract_product_info (JObj [(''variants'', JArr [JObj [(''id'', JInt 7)]])])
     = Inr (JObj
        [(''id'', JNull), (''title'', JNull), (''handle'', JNull), (''vendor'', JNull),
         (''product_type'', JNull), (''tags'', JArr []), (''description'', JStr ''''),
         (''created_at'', JNull), (''updated_at'', JNull), (''published_at'', JNull),
         (''variants'', JArr [JObj
            [(''id'', JInt 7), (''title'', JNull), (''price'', JNull),
             (''compare_at_price'', JNull), (''sku'', JNull), (''available'', JNull),
             (''inventory_quantity'', JNull), (''weight'', JNull), (''weight_unit'', JNull)]]),
         (''images'', JArr []), (''options'', JArr [])])"
proof -
  have raw: "raw_product (JObj [(''variants'', JArr [JObj [(''id'', JInt 7)]])])"
    by (simp add: raw_product_def absent_or_def tags_ok_def)
  from extract_product_info_total [OF raw] raw show ?thesis
    by (simp add: extract_product_info_def split_tags_def variant_info_def py_get_def)
qed

text \<open>
  The Raw shape matters. Outside it the Projector can raise: tags given as a non-empty
  list have no \<^verbatim>\<open>split\<close>, and variants given as \<^verbatim>\<open>null\<close> cannot be iterated.
\<close>

lemma list_tags_raise:
  "extract_product_info (JObj [(''tags'', JArr [JStr ''a''])]) = Inl AttributeError"
  by (simp add: extract_product_info_def split_tags_def py_get_def)

lemma null_variants_raise:
  "extract_product_info (JObj [(''variants'', JNull)]) = Inl TypeError"
  by (simp add: extract_product_info_def split_tags_def py_get_def)

text \<open>
  C6 (amended). On a Raw-shaped record the eight fields id, title, handle, vendor,
  product_type, created_at, updated_at and published_at pass through unchanged under
  their own names, \<open>None\<close> when missing. \<open>body_html\<close> passes through unchanged under the
  name \<open>description\<close>, the result has no \<open>body_html\<close> entry, and a missing \<open>body_html\<close>
  projects to the empty string.
\<close>

theorem scalar_fields_pass_through:
  assumes "raw_product p"
  shows "(\<forall>k\<in>set passthrough_keys.
            result_field (extract_product_info p) k
              = Some (case lookup p k of None \<Rightarrow> JNull | Some v \<Rightarrow> v))
    \<and> result_field (extract_product_info p) ''description''
         = Some (case lookup p ''body_html'' of None \<Rightarrow> JStr '''' | Some v \<Rightarrow> v)
    \<and> result_field (extract_product_info p) ''body_html'' = None"
proof -
  from assms obtain kvs where p: "p = JObj kvs" by (rule raw_productE)
  with assms have out: "extract_product_info p = Inr (JObj (projected kvs))"
    by (simp add: extract_raw)
  show ?thesis
    unfolding out
    by (simp add: passthrough_keys_def result_field_def lookup_def map_of_projected
        py_get_def p)
qed

theorem scalar_fields_pass_through_witness:
  "raw_product (JObj [(''title'', JStr ''Mug''), (''body_html'', JStr ''<p>big</p>'')])
   \<and> result_field (extract_product_info
        (JObj [(''title'', JStr ''Mug''), (''body_html'', JStr ''<p>big</p>'')])) ''title''
      = Some (JStr ''Mug'')
   \<and> result_field (extract_product_info
        (JObj [(''title'', JStr ''Mug''), (''body_html'', JStr ''<p>big</p>'')])) ''vendor''
      = Some JNull
   \<and> result_field (extract_product_info
        (JObj [(''title'', JStr ''Mug''), (''body_html'', JStr ''<p>big</p>'')])) ''description''
      = Some (JStr ''<p>big</p>'')"
proof -
  have raw: "raw_product (JObj [(''title'', JStr ''Mug''), (''body_html'', JStr ''<p>big</p>'')])"
    by (simp add: raw_product_def absent_or_def tags_ok_def)
  from scalar_fields_pass_through [OF raw] raw show ?thesis
    by (simp add: passthrough_keys_def lookup_def)
qed

text \<open>
  The claim as written fails for \<open>body_html\<close>: on the record with no field at all the
  description is the empty string, not \<open>None\<close>, and there is no \<open>body_html\<close> entry.
\<close>

theorem missing_body_html_counterexample:
  "lookup (JObj []) ''body_html'' = None
   \<and> result_field (extract_product_info (JObj [])) ''description'' = Some (JStr '''')
   \<and> result_field (extract_product_info (JObj [])) ''description'' \<noteq> Some JNull
   \<and> result_field (extract_product_info (JObj [])) ''body_html'' = None"
  by (simp add: extract_product_info_def split_tags_def py_get_def result_field_def lookup_def)

text \<open>
  C7. On a Raw-shaped record with images \<open>imgs\<close>, the projected images are the \<open>src\<close> of
  each image, in the same order and as many (\<open>None\<close> for an image without \<open>src\<close>).
\<close>

theorem images_are_srcs:
  assumes "raw_product p" and "lookup p ''images'' = Some (JArr imgs)"
  shows "\<exists>srcs. result_field (extract_product_info p) ''images'' = Some (JArr srcs)
    \<and> length srcs = length imgs
    \<and> (\<forall>i<length imgs. srcs ! i = py_get (dict_of (imgs ! i)) ''src'' JNull)
    \<and> srcs = map (\<lambda>img. py_get (dict_of img) ''src'' JNull) imgs"
proof -
  from assms(1) obtain kvs where p: "p = JObj kvs" by (rule raw_productE)
  with assms(1) have out: "extract_product_info p = Inr (JObj (projected kvs))"
    by (simp add: extract_raw)
  from assms(2) have "result_field (extract_product_info p) ''images''
      = Some (JArr (map (\<lambda>img. py_get (dict_of img) ''src'' JNull) imgs))"
    unfolding out by (simp add: result_field_def lookup_def map_of_projected py_get_def p)
  then show ?thesis by simp
qed

theorem images_are_srcs_witness:
  "raw_product (JObj [(''images'', JArr [JObj [(''src'', JStr ''u1''), (''id'', JInt 1)],
                                          JObj [(''src'', JStr ''u2'')]])])
   \<and> lookup (JObj [(''images'', JArr [JObj [(''src'', JStr ''u1''), (''id'', JInt 1)],
                                          JObj [(''src'', JStr ''u2'')]])]) ''images''
      = Some (JArr [JObj [(''src'', JStr ''u1''), (''id'', JInt 1)], JObj [(''src'', JStr ''u2'')]])
   \<and> result_field (extract_product_info
        (JObj [(''images'', JArr [JObj [(''src'', JStr ''u1''), (''id'', JInt 1)],
                                   JObj [(''src'', JStr ''u2'')]])])) ''images''
      = Some (JArr [JStr ''u1'', JStr ''u2''])"
proof -
  have raw: "raw_product (JObj [(''images'', JArr [JObj [(''src'', JStr ''u1''), (''id'', JInt 1)],
                                          JObj [(''src'', JStr ''u2'')]])])"
    by (simp add: raw_product_def absent_or_def tags_ok_def)
  have imgs: "lookup (JObj [(''images'', JArr [JObj [(''src'', JStr ''u1''), (''id'', JInt 1)],
                                          JObj [(''src'', JStr ''u2'')]])]) ''images''
      = Some (JArr [JObj [(''src'', JStr ''u1''), (''id'', JInt 1)], JObj [(''src'', JStr ''u2'')]])"
    by (simp add: lookup_def)
  from images_are_srcs [OF raw imgs] raw imgs show ?thesis
    by (auto simp: py_get_def)
qed

text \<open>
  C10. Whenever the Projector returns, its result has exactly the thirteen keys, in the
  order they are written (the body is under \<open>description\<close>, and there is no \<open>body_html\<close>
  key); each projected variant has exactly the nine keys; and a missing \<open>options\<close> is
  the empty list. On a Raw-shaped record the Projector does return.
\<close>

theorem projected_keys:
  "(raw_product p \<longrightarrow> (\<exists>out. extract_product_info p = Inr out))
   \<and> (\<forall>out. extract_product_info p = Inr out \<longrightarrow>
         keys out = Some product_keys
         \<and> (\<exists>ws. lookup out ''variants'' = Some (JArr ws)
               \<and> (\<forall>w\<in>set ws. keys w = Some variant_keys))
         \<and> (lookup p ''options'' = None \<longrightarrow> lookup out ''options'' = Some (JArr [])))"
proof (intro conjI allI impI)
  assume "raw_product p"
  then obtain kvs where "p = JObj kvs" by (rule raw_productE)
  with \<open>raw_product p\<close> show "\<exists>out. extract_product_info p = Inr out"
    by (simp add: extract_raw)
next
  fix out
  assume ret: "extract_product_info p = Inr out"
  then obtain product where p: "p = JObj product"
    by (cases p) (simp_all add: extract_product_info_def)
  from ret obtain tags xs ws srcs
    where xs: "py_iter (py_get product ''variants'' (JArr [])) = Inr xs"
      and ws: "map_err variant_info xs = Inr ws"
      and out: "out = JObj
                [(''id'', py_get product ''id'' JNull),
                 (''title'', py_get product ''title'' JNull),
                 (''handle'', py_get product ''handle'' JNull),
                 (''vendor'', py_get product ''vendor'' JNull),
                 (''product_type'', py_get product ''product_type'' JNull),
                 (''tags'', tags),
                 (''description'', py_get product ''body_html'' (JStr '''')),
                 (''created_at'', py_get product ''created_at'' JNull),
                 (''updated_at'', py_get product ''updated_at'' JNull),
                 (''published_at'', py_get product ''published_at'' JNull),
                 (''variants'', JArr ws),
                 (''images'', JArr srcs),
                 (''options'', py_get product ''options'' (JArr []))]"
    unfolding p extract_product_info_def
    by (auto simp: Let_def err_bind_eq_Inr)
  show "keys out = Some product_keys"
    by (simp add: out product_keys_def)
  from map_err_variant_info_Inr [OF ws] have "\<forall>w\<in>set ws. keys w = Some variant_keys"
    by (simp add: keys_pick)
  moreover have "lookup out ''variants'' = Some (JArr ws)"
    by (simp add: out lookup_def)
  ultimately show "\<exists>ws. lookup out ''variants'' = Some (JArr ws)
      \<and> (\<forall>w\<in>set ws. keys w = Some variant_keys)" by blast
  show "lookup out ''options'' = Some (JArr [])" if "lookup p ''options'' = None"
    using that by (simp add: out p lookup_def py_get_def)
qed

theorem projected_keys_witness:
  "raw_product (JObj [(''title'', JStr ''Mug''), (''variants'', JArr [JObj [(''sku'', JStr ''M1'')]])])
   \<and> (case extract_product_info
        (JObj [(''title'', JStr ''Mug''), (''variants'', JArr [JObj [(''sku'', JStr ''M1'')]])]) of
        Inl e \<Rightarrow> False
      | Inr out \<Rightarrow> keys out = Some product_keys
          \<and> map keys (items_of (py_get (dict_of out) ''variants'' JNull)) = [Some variant_keys]
          \<and> lookup out ''options'' = Some (JArr []))"
proof -
  have raw: "raw_product
      (JObj [(''title'', JStr ''Mug''), (''variants'', JArr [JObj [(''sku'', JStr ''M1'')]])])"
    by (simp add: raw_product_def absent_or_def tags_ok_def)
  from projected_keys
    [of "JObj [(''title'', JStr ''Mug''), (''variants'', JArr [JObj [(''sku'', JStr ''M1'')]])]"]
    raw
  show ?thesis
    by (simp add: extract_product_info_def split_tags_def variant_info_def py_get_def
        result_field_def lookup_def product_keys_def variant_keys_def)
qed

text \<open>
  C2 (amended). On a Raw-shaped record whose tags are a non-empty string \<open>s\<close>, the
  projected tags are the pieces \<^verbatim>\<open>s.split(", ")\<close> gives, in order: there is at least one
  piece and joining the pieces with \<open>", "\<close> gives \<open>s\<close> back. The pieces are not trimmed any
  further. When the tags are absent or the empty string, the projected tags are the empty
  sequence.
\<close>

theorem tags_are_split:
  assumes "raw_product p"
  shows "(\<forall>s. lookup p ''tags'' = Some (JStr s) \<and> s \<noteq> [] \<longrightarrow>
            (\<exists>parts. py_split s '', '' = Inr parts \<and> parts \<noteq> [] \<and> py_join '', '' parts = s
               \<and> result_field (extract_product_info p) ''tags'' = Some (JArr (map JStr parts))))
    \<and> (lookup p ''tags'' = None \<or> lookup p ''tags'' = Some (JStr '''') \<longrightarrow>
          result_field (extract_product_info p) ''tags'' = Some (JArr []))"
proof -
  from assms obtain kvs where p: "p = JObj kvs" by (rule raw_productE)
  with assms have out: "extract_product_info p = Inr (JObj (projected kvs))"
    by (simp add: extract_raw)
  have tags: "result_field (extract_product_info p) ''tags'' = Some (tags_of kvs)"
    unfolding out by (simp add: result_field_def lookup_def map_of_projected)
  have "\<exists>parts. py_split s '', '' = Inr parts \<and> parts \<noteq> [] \<and> py_join '', '' parts = s
      \<and> result_field (extract_product_info p) ''tags'' = Some (JArr (map JStr parts))"
    if "lookup p ''tags'' = Some (JStr s) \<and> s \<noteq> []" for s
  proof (intro exI conjI)
    show "py_split s '', '' = Inr (split_from (CHR '','') '' '' [] s)" by simp
    show "split_from (CHR '','') '' '' [] s \<noteq> []" by (rule split_from_nonempty)
    show "py_join '', '' (split_from (CHR '','') '' '' [] s) = s"
      using join_split_from [of "CHR '',''" "'' ''" "[]" s] by simp
    from that show "result_field (extract_product_info p) ''tags''
        = Some (JArr (map JStr (split_from (CHR '','') '' '' [] s)))"
      unfolding tags by (simp add: tags_of_def p lookup_def)
  qed
  moreover have "result_field (extract_product_info p) ''tags'' = Some (JArr [])"
    if "lookup p ''tags'' = None \<or> lookup p ''tags'' = Some (JStr '''')"
    using that unfolding tags by (auto simp: tags_of_def p lookup_def)
  ultimately show ?thesis by blast
qed

theorem tags_are_split_witness:
  "raw_product (JObj [(''tags'', JStr ''a, b, c'')])
   \<and> lookup (JObj [(''tags'', JStr ''a, b, c'')]) ''tags'' = Some (JStr ''a, b, c'')
   \<and> py_split ''a, b, c'' '', '' = Inr [''a'', ''b'', ''c'']
   \<and> result_field (extract_product_info (JObj [(''tags'', JStr ''a, b, c'')])) ''tags''
      = Some (JArr [JStr ''a'', JStr ''b'', JStr ''c''])
   \<and> result_field (extract_product_info (JObj [(''tags'', JStr ''solo'')])) ''tags''
      = Some (JArr [JStr ''solo''])
   \<and> result_field (extract_product_info (JObj [(''tags'', JStr '''')])) ''tags''
      = Some (JArr [])
   \<and> result_field (extract_product_info (JObj [])) ''tags'' = Some (JArr [])"
proof -
  have raw: "raw_product (JObj [(''tags'', JStr ''a, b, c'')])"
    by (simp add: raw_product_def absent_or_def tags_ok_def)
  from tags_are_split [OF raw] raw show ?thesis
    by (simp add: extract_product_info_def split_tags_def py_get_def result_field_def lookup_def)
qed

text \<open>
  The claim as written promises trimmed tag strings. The code only splits: with two
  spaces after the comma the second tag keeps a leading space.
\<close>

theorem tags_not_trimmed_counterexample:
  "raw_product (JObj [(''tags'', JStr ''a,  b'')])
   \<and> result_field (extract_product_info (JObj [(''tags'', JStr ''a,  b'')])) ''tags''
      = Some (JArr [JStr ''a'', JStr '' b''])
   \<and> \<not> trimmed '' b''"
  by (simp add: raw_product_def absent_or_def tags_ok_def extract_product_info_def split_tags_def
      py_get_def result_field_def lookup_def trimmed_def py_strip_def is_space_def)

section \<open>Properties of the Fetcher\<close>

text \<open>
  C1. A store answers the first \<open>N\<close> requests, for pages 1 to \<open>N\<close>, with full pages of 250
  products and the next request, for page \<open>N + 1\<close>, with a page of \<open>k < 250\<close> products
  (\<open>k\<close> may be 0). Then the Fetcher returns: it has made exactly \<open>N + 1\<close> requests, one for
  each page in turn, it stops at the short page, and its result is the pages one after
  the other in the store's order, \<open>250 * N + k\<close> products in all. The delay is not
  negative, as \<^verbatim>\<open>time.sleep\<close> demands.
\<close>

theorem scrape_returns_all_pages:
  assumes "0 \<le> delay"
    and "\<forall>i<N. page_of (server i (page_url (normalize_url store_url) (Suc i))) = Some (pages i)
              \<and> length (pages i) = 250"
    and "page_of (server N (page_url (normalize_url store_url) (Suc N))) = Some last_page"
    and "length last_page = k" and "k < 250"
  shows "scrape_shopify_products server store_url delay
           = Some (full_trace (normalize_url store_url) delay 1 N
                     @ [Request (page_url (normalize_url store_url) (Suc N))],
                   Inr (concat (map pages [0..<N]) @ last_page))
    \<and> length (concat (map pages [0..<N]) @ last_page) = 250 * N + k
    \<and> requests (full_trace (normalize_url store_url) delay 1 N
                  @ [Request (page_url (normalize_url store_url) (Suc N))])
        = map (\<lambda>i. page_url (normalize_url store_url) (Suc i)) [0..<Suc N]"
proof (intro conjI)
  from assms(4,5) have short: "length last_page < 250" by simp
  show "scrape_shopify_products server store_url delay
      = Some (full_trace (normalize_url store_url) delay 1 N
                @ [Request (page_url (normalize_url store_url) (Suc N))],
              Inr (concat (map pages [0..<N]) @ last_page))"
    unfolding scrape_full_then [where server = server and pages = pages, OF assms(1,2)]
    by (rule fetch_loop_last_page [where server = server, OF assms(3) short])
  from assms(2) have "\<forall>i<N. length (pages i) = 250" by simp
  then have "length (concat (map pages [0..<N])) = 250 * N" by (rule length_concat_full)
  with assms(4) show "length (concat (map pages [0..<N]) @ last_page) = 250 * N + k" by simp
  show "requests (full_trace (normalize_url store_url) delay 1 N
                  @ [Request (page_url (normalize_url store_url) (Suc N))])
        = map (\<lambda>i. page_url (normalize_url store_url) (Suc i)) [0..<Suc N]"
    by (simp add: requests_append requests_full_trace)
qed

theorem scrape_returns_all_pages_witness:
  "scrape_shopify_products two_page_store ''shop.example.com'' 1
     = Some ([Request (page_url (normalize_url ''shop.example.com'') 1), Sleep 1,
              Request (page_url (normalize_url ''shop.example.com'') 2)],
             Inr (replicate 250 mug @ replicate 10 mug))
   \<and> length (replicate 250 mug @ replicate 10 mug) = 260"
proof -
  have full: "\<forall>i<1. page_of (two_page_store i (page_url (normalize_url ''shop.example.com'') (Suc i)))
        = Some (replicate 250 mug) \<and> length (replicate 250 mug) = 250"
    by (simp add: two_page_store_def)
  have last: "page_of (two_page_store 1 (page_url (normalize_url ''shop.example.com'') (Suc 1)))
        = Some (replicate 10 mug)"
    by (simp add: two_page_store_def)
  from scrape_returns_all_pages [where server = two_page_store and delay = 1 and N = 1
      and pages = "\<lambda>i. replicate 250 mug" and k = 10, OF _ full last]
  show ?thesis by (simp add: full_trace_def numeral_2_eq_2)
qed

text \<open>
  C3. HTTP 429 is retried on the same page, after a sleep of 10 seconds, as often as it
  comes: from any state of the loop, \<open>n\<close> rate limits in a row lead to the state with the
  same page and the same products, \<open>n\<close> requests for that page and \<open>n\<close> sleeps of 10 later.
  If the request after them brings a short page, the Fetcher succeeds with \<open>n + 1\<close>
  requests for that page. There is no cap: against a store that always answers 429 for
  the page the loop never returns.
\<close>

theorem rate_limit_retries_same_page:
  "((\<forall>i<n. server (t + i) (page_url base page) = HTTPError 429) \<longrightarrow>
      fetch_loop server base delay t page acc trace =
      fetch_loop server base delay (t + n) page acc
        (trace @ concat (replicate n [Request (page_url base page), Sleep 10])))
   \<and> ((\<forall>i<n. server (t + i) (page_url base page) = HTTPError 429)
        \<and> page_of (server (t + n) (page_url base page)) = Some ps \<and> length ps < 250 \<longrightarrow>
      fetch_loop server base delay t page acc trace =
      Some (trace @ concat (replicate n [Request (page_url base page), Sleep 10])
              @ [Request (page_url base page)], Inr (acc @ ps)))
   \<and> ((\<forall>t'. server t' (page_url base page) = HTTPError 429) \<longrightarrow>
      fetch_loop server base delay t page acc trace = None)"
proof (intro conjI impI)
  assume "\<forall>i<n. server (t + i) (page_url base page) = HTTPError 429"
  then show "fetch_loop server base delay t page acc trace =
      fetch_loop server base delay (t + n) page acc
        (trace @ concat (replicate n [Request (page_url base page), Sleep 10]))"
    by (rule fetch_loop_retries)
next
  assume a: "(\<forall>i<n. server (t + i) (page_url base page) = HTTPError 429)
      \<and> page_of (server (t + n) (page_url base page)) = Some ps \<and> length ps < 250"
  then have "fetch_loop server base delay t page acc trace =
      fetch_loop server base delay (t + n) page acc
        (trace @ concat (replicate n [Request (page_url base page), Sleep 10]))"
    by (intro fetch_loop_retries) simp
  also from a have "\<dots> = Some ((trace @ concat (replicate n [Request (page_url base page), Sleep 10]))
              @ [Request (page_url base page)], Inr (acc @ ps))"
    by (intro fetch_loop_last_page) simp_all
  finally show "fetch_loop server base delay t page acc trace =
      Some (trace @ concat (replicate n [Request (page_url base page), Sleep 10])
              @ [Request (page_url base page)], Inr (acc @ ps))" by simp
next
  assume always: "\<forall>t'. server t' (page_url base page) = HTTPError 429"
  show "fetch_loop server base delay t page acc trace = None"
  proof (cases "fetch_loop server base delay t page acc trace")
    case None
    then show ?thesis .
  next
    case (Some y)
    from fetch_loop_Some_not_limited [OF this] always show ?thesis by simp
  qed
qed

theorem rate_limit_retries_same_page_witness:
  "limited_once_store 0 (page_url (normalize_url ''shop.example.com'') 1) = HTTPError 429
   \<and> scrape_shopify_products limited_once_store ''shop.example.com'' 1
     = Some ([Request (page_url (normalize_url ''shop.example.com'') 1), Sleep 10,
              Request (page_url (normalize_url ''shop.example.com'') 1)],
             Inr [mug])
   \<and> length (requests [Request (page_url (normalize_url ''shop.example.com'') 1), Sleep 10,
              Request (page_url (normalize_url ''shop.example.com'') 1)]) = 2"
proof -
  have limited: "(\<forall>i<1. limited_once_store (0 + i) (page_url (normalize_url ''shop.example.com'') 1)
          = HTTPError 429)
      \<and> page_of (limited_once_store (0 + 1) (page_url (normalize_url ''shop.example.com'') 1))
          = Some [mug]
      \<and> length [mug] < 250"
    by (simp add: limited_once_store_def)
  from rate_limit_retries_same_page [where server = limited_once_store and n = 1 and t = 0
      and base = "normalize_url ''shop.example.com''" and page = 1 and ps = "[mug]"
      and delay = 1 and acc = "[]" and trace = "[]", THEN conjunct2, THEN conjunct1, THEN mp,
      OF limited]
  show ?thesis
    by (simp add: limited_once_store_def scrape_shopify_products_def)
qed




section \<open>Properties of the command line\<close>

lemma map_err_all:
  assumes "list_all (\<lambda>x. \<not> isl (f x)) xs"
  shows "map_err f xs = Inr (map (\<lambda>x. projr (f x)) xs)"
proof (rule map_err_Inr)
  fix x
  assume "x \<in> set xs"
  with assms have "\<not> isl (f x)" by (simp add: list_all_iff)
  then show "f x = Inr (projr (f x))" by (cases "f x") simp_all
qed

lemma map_err_fail: "\<not> list_all (\<lambda>x. \<not> isl (f x)) xs \<Longrightarrow> isl (map_err f xs)"
  by (induction xs) (auto simp: err_bind_def split: sum.splits)

lemma raw_product_projects:
  assumes "raw_product p"
  shows "projects p"
proof -
  from assms obtain kvs where "p = JObj kvs" by (rule raw_productE)
  with assms show ?thesis by (simp add: projects_def extract_raw)
qed

lemma extract_Inr_summary_fields:
  assumes "extract_product_info p = Inr out"
  shows "py_index out ''vendor'' = Inr (py_get (dict_of p) ''vendor'' JNull)"
    and "py_index out ''product_type'' = Inr (py_get (dict_of p) ''product_type'' JNull)"
proof -
  from assms obtain product where p: "p = JObj product"
    by (cases p) (simp_all add: extract_product_info_def)
  from assms show "py_index out ''vendor'' = Inr (py_get (dict_of p) ''vendor'' JNull)"
    and "py_index out ''product_type'' = Inr (py_get (dict_of p) ''product_type'' JNull)"
    unfolding p extract_product_info_def
    by (auto simp: Let_def err_bind_eq_Inr)
qed

lemma scalar_field_iff:
  "absent_or scalar_or_falsy kvs k
     \<longleftrightarrow> (truthy (py_get kvs k JNull) \<longrightarrow> hashable (py_get kvs k JNull))"
  by (cases "map_of kvs k") (simp_all add: absent_or_def scalar_or_falsy_def py_get_def)

text \<open>Building a set raises exactly when some member is true and not hashable.\<close>

lemma truthy_values_isl:
  "isl (truthy_values k cs)
     \<longleftrightarrow> (\<exists>c\<in>set cs. \<forall>v. py_index c k = Inr v \<longrightarrow> truthy v \<and> \<not> hashable v)"
proof (induction cs)
  case Nil
  then show ?case by simp
next
  case (Cons c cs)
  show ?case
  proof (cases "py_index c k")
    case (Inl e)
    then show ?thesis by simp
  next
    case (Inr v)
    with Cons show ?thesis
      by (cases "truthy_values k cs") auto
  qed
qed

lemma summary_isl:
  assumes "list_all projects ps"
  shows "isl (err_bind (truthy_values ''vendor'' (map (\<lambda>p. projr (extract_product_info p)) ps))
           (\<lambda>vendors.
              err_bind (truthy_values ''product_type''
                          (map (\<lambda>p. projr (extract_product_info p)) ps))
                (\<lambda>types. Inr (vendors, types))))
         \<longleftrightarrow> \<not> list_all summarisable ps"
proof -
  have field: "py_index (projr (extract_product_info p)) k
      = Inr (py_get (dict_of p) k JNull)"
    if "p \<in> set ps" and "k = ''vendor'' \<or> k = ''product_type''" for p k
  proof -
    from that(1) assms have "\<not> isl (extract_product_info p)"
      by (simp add: list_all_iff projects_def)
    then have "extract_product_info p = Inr (projr (extract_product_info p))"
      by (cases "extract_product_info p") simp_all
    from extract_Inr_summary_fields [OF this] that(2) show ?thesis by auto
  qed
  have one: "isl (truthy_values k (map (\<lambda>p. projr (extract_product_info p)) ps))
      \<longleftrightarrow> (\<exists>p\<in>set ps. \<not> absent_or scalar_or_falsy (dict_of p) k)"
    if "k = ''vendor'' \<or> k = ''product_type''" for k
    using that by (simp add: truthy_values_isl scalar_field_iff field)
  have "isl (err_bind a (\<lambda>x. err_bind b (\<lambda>y. Inr (x, y)))) \<longleftrightarrow> isl a \<or> isl b"
    for a b :: "py_error + json list"
    by (cases a; cases b) simp_all
  then show ?thesis
    by (auto simp: one list_all_iff summarisable_def)
qed

lemma scrape_one_page:
  assumes "page_of (server 0 (page_url (normalize_url store_url) 1)) = Some ps"
    and "length ps < 250"
  shows "scrape_shopify_products server store_url delay
     = Some ([Request (page_url (normalize_url store_url) 1)], Inr ps)"
  unfolding scrape_shopify_products_def
  using fetch_loop_last_page [where server = server and acc = "[]" and trace = "[]"
      and t = 0 and page = 1, OF assms]
  by simp

lemma scrape_mug_store:
  "scrape_shopify_products mug_store store_url delay
     = Some ([Request (page_url (normalize_url store_url) 1)], Inr [mug])"
  by (rule scrape_one_page) (simp_all add: mug_store_def)

text \<open>
  C8 (amended). The process exits with status 1 when the store URL argument is missing,
  when the Fetcher raises an exception, and when the Fetcher returns no product. When
  the Fetcher returns at least one product, the process exits with status 0 if and only
  if the Projector returns on every product (as it does on every Raw-shaped product),
  the output file can be written, and the vendor and the product type of every product
  are absent, false or hashable; otherwise the exception of the Projector, of the file
  or of the summary is not caught and the status is 1. While the Fetcher does not
  return, the process does not exit.
\<close>

theorem main_exit_status:
  "(length argv < 2 \<longrightarrow> exit_status (main server writable argv) = Some 1)
   \<and> (2 \<le> length argv \<and> scrape_shopify_products server (argv ! 1) 1 = None
        \<longrightarrow> main server writable argv = None)
   \<and> (2 \<le> length argv \<and> scrape_shopify_products server (argv ! 1) 1 = Some (trace, Inl e)
        \<longrightarrow> exit_status (main server writable argv) = Some 1)
   \<and> (2 \<le> length argv \<and> scrape_shopify_products server (argv ! 1) 1 = Some (trace, Inr ps)
        \<longrightarrow> exit_status (main server writable argv)
              = Some (if ps \<noteq> [] \<and> list_all projects ps \<and> writable (output_file_of argv)
                         \<and> list_all summarisable ps
                      then 0 else 1))
   \<and> (raw_product p \<longrightarrow> projects p)"
proof (intro conjI impI)
  assume "length argv < 2"
  then show "exit_status (main server writable argv) = Some 1"
    by (simp add: main_def exit_status_def)
next
  assume "2 \<le> length argv \<and> scrape_shopify_products server (argv ! 1) 1 = None"
  then show "main server writable argv = None"
    by (simp add: main_def Let_def)
next
  assume "2 \<le> length argv \<and> scrape_shopify_products server (argv ! 1) 1 = Some (trace, Inl e)"
  then show "exit_status (main server writable argv) = Some 1"
    by (simp add: main_def exit_status_def Let_def)
next
  assume "raw_product p"
  then show "projects p" by (rule raw_product_projects)
next
  assume a: "2 \<le> length argv
      \<and> scrape_shopify_products server (argv ! 1) 1 = Some (trace, Inr ps)"
  then have long: "\<not> length argv < 2"
    and ret: "scrape_shopify_products server (argv ! 1) 1 = Some (trace, Inr ps)"
    by simp_all
  let ?out = "if 2 < length argv then argv ! 2 else ''products.json''"
  let ?cleaned = "map (\<lambda>p. projr (extract_product_info p)) ps"
  show "exit_status (main server writable argv)
      = Some (if ps \<noteq> [] \<and> list_all projects ps \<and> writable (output_file_of argv)
                 \<and> list_all summarisable ps
              then 0 else 1)"
  proof (cases "ps = []")
    case True
    with long ret show ?thesis
      by (simp add: main_def exit_status_def Let_def)
  next
    case some: False
    show ?thesis
    proof (cases "list_all projects ps")
      case False
      then have "isl (map_err extract_product_info ps)"
        unfolding projects_def [abs_def] by (rule map_err_fail)
      then obtain x where "map_err extract_product_info ps = Inl x"
        by (cases "map_err extract_product_info ps") simp_all
      with long ret some False show ?thesis
        by (simp add: main_def exit_status_def Let_def split del: if_split)
    next
      case all: True
      then have cleaned: "map_err extract_product_info ps = Inr ?cleaned"
        unfolding projects_def [abs_def] by (rule map_err_all)
      show ?thesis
      proof (cases "writable ?out")
        case False
        with long ret some cleaned show ?thesis
          by (simp add: main_def exit_status_def Let_def output_file_of_def
              split del: if_split)
      next
        case w: True
        show ?thesis
        proof (cases "list_all summarisable ps")
          case True
          with summary_isl [OF all] obtain s where
            "err_bind (truthy_values ''vendor'' ?cleaned)
               (\<lambda>vendors. err_bind (truthy_values ''product_type'' ?cleaned)
                  (\<lambda>types. Inr (vendors, types))) = Inr s"
            by (cases "err_bind (truthy_values ''vendor'' ?cleaned)
               (\<lambda>vendors. err_bind (truthy_values ''product_type'' ?cleaned)
                  (\<lambda>types. Inr (vendors, types)))") simp_all
          with long ret some cleaned w all True show ?thesis
            by (simp add: main_def exit_status_def Let_def output_file_of_def
                split del: if_split)
        next
          case False
          with summary_isl [OF all] obtain x where
            "err_bind (truthy_values ''vendor'' ?cleaned)
               (\<lambda>vendors. err_bind (truthy_values ''product_type'' ?cleaned)
                  (\<lambda>types. Inr (vendors, types))) = Inl x"
            by (cases "err_bind (truthy_values ''vendor'' ?cleaned)
               (\<lambda>vendors. err_bind (truthy_values ''product_type'' ?cleaned)
                  (\<lambda>types. Inr (vendors, types)))") simp_all
          with long ret some cleaned w all False show ?thesis
            by (simp add: main_def exit_status_def Let_def output_file_of_def
                split del: if_split)
        qed
      qed
    qed
  qed
qed

theorem main_exit_status_witness:
  "exit_status (main mug_store all_writable [''shopify_scraper.py'']) = Some 1
   \<and> raw_product mug \<and> projects mug \<and> summarisable mug
   \<and> all_writable (output_file_of [''shopify_scraper.py'', ''shop.example.com''])
   \<and> scrape_shopify_products mug_store ''shop.example.com'' 1
        = Some ([Request (page_url (normalize_url ''shop.example.com'') 1)], Inr [mug])
   \<and> exit_status (main mug_store all_writable [''shopify_scraper.py'', ''shop.example.com''])
        = Some 0
   \<and> scrape_shopify_products list_tags_store ''shop.example.com'' 1
        = Some ([Request (page_url (normalize_url ''shop.example.com'') 1)],
                Inr [JObj [(''tags'', JArr [JStr ''a''])]])
   \<and> \<not> projects (JObj [(''tags'', JArr [JStr ''a''])])
   \<and> exit_status
        (main list_tags_store all_writable [''shopify_scraper.py'', ''shop.example.com''])
        = Some 1"
proof -
  have short: "length [''shopify_scraper.py''] < 2" by simp
  have raw: "raw_product mug"
    by (simp add: mug_def raw_product_def absent_or_def tags_ok_def)
  have sum: "summarisable mug"
    by (simp add: mug_def summarisable_def absent_or_def scalar_or_falsy_def)
  have bad: "\<not> projects (JObj [(''tags'', JArr [JStr ''a''])])"
    by (simp add: projects_def extract_product_info_def split_tags_def py_get_def)
  have tags: "scrape_shopify_products list_tags_store ''shop.example.com'' 1
        = Some ([Request (page_url (normalize_url ''shop.example.com'') 1)],
                Inr [JObj [(''tags'', JArr [JStr ''a''])]])"
    by (rule scrape_one_page) (simp_all add: list_tags_store_def)
  have run: "2 \<le> length [''shopify_scraper.py'', ''shop.example.com'']
      \<and> scrape_shopify_products mug_store ([''shopify_scraper.py'', ''shop.example.com''] ! 1) 1
          = Some ([Request (page_url (normalize_url ''shop.example.com'') 1)], Inr [mug])"
    by (simp add: scrape_mug_store)
  have run_tags: "2 \<le> length [''shopify_scraper.py'', ''shop.example.com'']
      \<and> scrape_shopify_products list_tags_store
            ([''shopify_scraper.py'', ''shop.example.com''] ! 1) 1
          = Some ([Request (page_url (normalize_url ''shop.example.com'') 1)],
                  Inr [JObj [(''tags'', JArr [JStr ''a''])]])"
    by (simp add: tags)
  note inst = main_exit_status [where writable = all_writable]
  from inst [where argv = "[''shopify_scraper.py'']" and server = mug_store,
      THEN conjunct1, THEN mp, OF short]
    inst [where server = mug_store,
      THEN conjunct2, THEN conjunct2, THEN conjunct2, THEN conjunct1, THEN mp, OF run]
    inst [where server = list_tags_store,
      THEN conjunct2, THEN conjunct2, THEN conjunct2, THEN conjunct1, THEN mp, OF run_tags]
    inst [where p = mug, THEN conjunct2, THEN conjunct2, THEN conjunct2, THEN conjunct2,
      THEN mp, OF raw]
    raw sum bad tags
  show ?thesis
    by (simp add: scrape_mug_store all_writable_def)
qed

text \<open>
  The claim as written gives status 0 to every run with a store URL and at least one
  scraped product. With an output file that cannot be opened (here no file can), the
  store URL is there and one product was scraped, yet the status is 1.
\<close>

theorem unwritable_output_counterexample:
  "2 \<le> length [''shopify_scraper.py'', ''shop.example.com'', ''/missing/out.json'']
   \<and> scrape_shopify_products mug_store ''shop.example.com'' 1
        = Some ([Request (page_url (normalize_url ''shop.example.com'') 1)], Inr [mug])
   \<and> [mug] \<noteq> []
   \<and> main mug_store nothing_writable
        [''shopify_scraper.py'', ''shop.example.com'', ''/missing/out.json''] = Some (1, None)"
  by (simp add: scrape_mug_store main_def nothing_writable_def Let_def mug_def
      extract_product_info_def split_tags_def py_get_def)

end
